theory Spec2Isabelle
  imports Main "HOL-Library.Word" "HOL-Library.Monad_Syntax"
begin

unbundle bit_operations_syntax

section \<open>The I/O pin allocation manager (src/io/io\_manage.c)\<close>

subsection \<open>Data model\<close>

text \<open>
  Modelled from the spec: the headers \<^verbatim>\<open>io_manage.h\<close> and \<^verbatim>\<open>io_manage_defs.h\<close>,
  which declare the types \<^verbatim>\<open>IO_alloc\<close> and \<^verbatim>\<open>IO_table\<close> and the array
  \<^verbatim>\<open>io_manage_tables\<close>, are missing from the sources. The records have the fields
  of section 3 of the spec, which are the ones \<^verbatim>\<open>io_manage.c\<close> reads and writes
  (\<^verbatim>\<open>table->port\<close>, \<^verbatim>\<open>table->pin[j].pad\<close>, \<^verbatim>\<open>.default_mode\<close>, \<^verbatim>\<open>.default_alloc\<close>,
  \<^verbatim>\<open>.fn_available\<close>, \<^verbatim>\<open>.current_mode\<close>, \<^verbatim>\<open>.current_alloc\<close>). Port identifiers,
  modes, pad numbers and function tags are taken as 32-bit values of the target; the
  contents and the sizes of the tables are parameters of the model.
\<close>

type_synonym ioportid_t = "32 word"
type_synonym iomode_t = "32 word"
type_synonym IO_alloc = "32 word"

record IO_pin =
  pad :: "32 word"
  default_mode :: iomode_t
  default_alloc :: IO_alloc
  fn_available :: "32 word"
  current_mode :: iomode_t
  current_alloc :: IO_alloc

text \<open>
  \<^verbatim>\<open>NELEMS(table->pin)\<close> is the length of the list \<open>pin\<close>.
\<close>

record IO_table =
  port :: ioportid_t
  pin :: "IO_pin list"

text \<open>
  The process-wide state: the array \<^verbatim>\<open>io_manage_tables\<close> (its entries point to
  distinct table objects, so a pointer to a table is an index into the list), and the
  calls \<^verbatim>\<open>palSetPadMode(port, pad, mode)\<close> made to the hardware abstraction layer so
  far, oldest first.
\<close>

record io_state =
  io_manage_tables :: "IO_table list"
  pal_calls :: "(ioportid_t \<times> 32 word \<times> iomode_t) list"

text \<open>
  C has no defined result for \<^verbatim>\<open>table->pin[pad]\<close> with \<open>pad\<close> past the end of the
  array, nor for a store through a null pointer: the model returns an error there.
  A function that does not return has the value \<open>None\<close>.
  \<^verbatim>\<open>palSetPadMode\<close> belongs to the hardware abstraction layer, outside the
  repository; the model records each call with its arguments.
\<close>

datatype error = OutOfBounds | NullPointer

definition palSetPadMode :: "ioportid_t \<Rightarrow> 32 word \<Rightarrow> iomode_t \<Rightarrow> io_state \<Rightarrow> io_state" where
  "palSetPadMode prt pd mode s = s\<lparr>pal_calls := pal_calls s @ [(prt, pd, mode)]\<rparr>"

subsection \<open>Capability lookup\<close>

text \<open>
  \<^verbatim>\<open>for(uint8_t i = 0; i < NELEMS(io_manage_tables); ++i)\<close>: the counter is eight bits
  wide and wraps, the comparison is made on its unsigned value.
\<close>

partial_function (option) io_manage_get_table_loop ::
  "IO_table list \<Rightarrow> ioportid_t \<Rightarrow> 8 word \<Rightarrow> nat option option" where
  "io_manage_get_table_loop tables prt i =
     (if unat i < length tables
      then (if port (tables ! unat i) = prt
            then Some (Some (unat i))
            else io_manage_get_table_loop tables prt (i + 1))
      else Some None)"

declare io_manage_get_table_loop.simps [code]

definition io_manage_get_table ::
  "IO_table list \<Rightarrow> ioportid_t \<Rightarrow> 32 word \<Rightarrow> nat option option" where
  "io_manage_get_table tables prt pd = io_manage_get_table_loop tables prt 0"

subsection \<open>Availability check\<close>

definition io_manage_fn_avail ::
  "ioportid_t \<Rightarrow> 32 word \<Rightarrow> IO_alloc \<Rightarrow> IO_table option \<Rightarrow> error + bool" where
  "io_manage_fn_avail prt pd request_alloc table =
     (case table of
        None \<Rightarrow> Inr False
      | Some t \<Rightarrow>
          if unat pd < length (pin t)
          then (let curr_alloc = current_alloc (pin t ! unat pd) in
                if curr_alloc = request_alloc then Inr True
                else if request_alloc AND fn_available (pin t ! unat pd) \<noteq> 0 then Inr True
                else Inr False)
          else Inl OutOfBounds)"

subsection \<open>Allocation commit\<close>

definition commit_pin :: "nat \<Rightarrow> 32 word \<Rightarrow> iomode_t \<Rightarrow> IO_alloc \<Rightarrow> io_state \<Rightarrow> io_state" where
  "commit_pin k pd new_mode request_alloc s =
     (let t = io_manage_tables s ! k;
          p = (pin t ! unat pd)\<lparr>current_mode := new_mode, current_alloc := request_alloc\<rparr>
      in s\<lparr>io_manage_tables := (io_manage_tables s)[k := t\<lparr>pin := (pin t)[unat pd := p]\<rparr>]\<rparr>)"

definition io_manage_set_mode ::
  "io_state \<Rightarrow> ioportid_t \<Rightarrow> 32 word \<Rightarrow> iomode_t \<Rightarrow> IO_alloc \<Rightarrow> (error + bool \<times> io_state) option" where
  "io_manage_set_mode s prt pd new_mode request_alloc =
     do {
       table \<leftarrow> io_manage_get_table (io_manage_tables s) prt pd;
       (case io_manage_fn_avail prt pd request_alloc
               (map_option (\<lambda>k. io_manage_tables s ! k) table) of
          Inl e \<Rightarrow> Some (Inl e)
        | Inr True \<Rightarrow>
            (case table of
               None \<Rightarrow> Some (Inl NullPointer)
             | Some k \<Rightarrow>
                 Some (Inr (True,
                   palSetPadMode prt pd new_mode (commit_pin k pd new_mode request_alloc s))))
        | Inr False \<Rightarrow> Some (Inr (False, s)))
     }"

subsection \<open>Reset to defaults\<close>

definition pin_to_default :: "IO_pin \<Rightarrow> IO_pin" where
  "pin_to_default p = p\<lparr>current_mode := default_mode p, current_alloc := default_alloc p\<rparr>"

text \<open>
  The inner loop \<^verbatim>\<open>for(uint8_t j = 0; j < NELEMS(table->pin); ++j)\<close> on the table at
  index \<open>k\<close>: the two stores to \<^verbatim>\<open>table->pin[j]\<close>, then the hardware call with the
  pin's own \<open>pad\<close> field and its restored mode.
\<close>

definition reset_pin :: "nat \<Rightarrow> nat \<Rightarrow> io_state \<Rightarrow> io_state" where
  "reset_pin k j s =
     (let t = io_manage_tables s ! k;
          p = pin_to_default (pin t ! j);
          s' = s\<lparr>io_manage_tables := (io_manage_tables s)[k := t\<lparr>pin := (pin t)[j := p]\<rparr>]\<rparr>
      in palSetPadMode (port t) (pad p) (current_mode p) s')"

partial_function (option) io_manage_to_defaults_pins ::
  "nat \<Rightarrow> 8 word \<Rightarrow> io_state \<Rightarrow> io_state option" where
  "io_manage_to_defaults_pins k j s =
     (if unat j < length (pin (io_manage_tables s ! k))
      then io_manage_to_defaults_pins k (j + 1) (reset_pin k (unat j) s)
      else Some s)"

declare io_manage_to_defaults_pins.simps [code]

partial_function (option) io_manage_to_defaults_loop ::
  "8 word \<Rightarrow> io_state \<Rightarrow> io_state option" where
  "io_manage_to_defaults_loop i s =
     (if unat i < length (io_manage_tables s)
      then do {
        s' \<leftarrow> io_manage_to_defaults_pins (unat i) 0 s;
        io_manage_to_defaults_loop (i + 1) s'
      }
      else Some s)"

declare io_manage_to_defaults_loop.simps [code]

definition io_manage_to_defaults :: "io_state \<Rightarrow> io_state option" where
  "io_manage_to_defaults s = io_manage_to_defaults_loop 0 s"

subsection \<open>What the reset computes, as list functions\<close>

text \<open>
  A table with every pin at its defaults, and the hardware calls the reset makes for it:
  one per pin, in array order, with the table's port, the pin's \<open>pad\<close> field and the
  restored mode.
\<close>

definition table_to_default :: "IO_table \<Rightarrow> IO_table" where
  "table_to_default t = t\<lparr>pin := map pin_to_default (pin t)\<rparr>"

definition default_calls :: "IO_table \<Rightarrow> (ioportid_t \<times> 32 word \<times> iomode_t) list" where
  "default_calls t = map (\<lambda>p. (port t, pad p, default_mode p)) (pin t)"

definition reset_table :: "nat \<Rightarrow> io_state \<Rightarrow> io_state" where
  "reset_table k s = fold (reset_pin k) [0..<length (pin (io_manage_tables s ! k))] s"

text \<open>
  Modelled from the spec: the initialisers of \<^verbatim>\<open>io_manage_tables\<close> are in
  \<^verbatim>\<open>io_manage_defs.h\<close>, which is missing. Section 3 of the spec has the registry
  created at boot mirroring the capability table, every pin at its declared default
  mode and owner: the boot registry of a capability table is the table with every
  pin's current fields equal to its default fields.
\<close>

definition boot_tables :: "IO_table list \<Rightarrow> IO_table list" where
  "boot_tables tables = map table_to_default tables"

definition pins_all :: "(IO_pin \<Rightarrow> bool) \<Rightarrow> io_state \<Rightarrow> bool" where
  "pins_all Q s \<longleftrightarrow> list_all (\<lambda>t. list_all Q (pin t)) (io_manage_tables s)"

definition pin_at_default :: "IO_pin \<Rightarrow> bool" where
  "pin_at_default p \<longleftrightarrow> current_mode p = default_mode p \<and> current_alloc p = default_alloc p"

definition at_defaults :: "io_state \<Rightarrow> bool" where
  "at_defaults s \<longleftrightarrow> pins_all pin_at_default s"

text \<open>
  The array sizes are compile-time constants of the missing headers. The loop counters
  are \<^verbatim>\<open>uint8_t\<close>, so the loops leave their arrays only when these have fewer than
  256 entries.
\<close>

definition registry_fits :: "io_state \<Rightarrow> bool" where
  "registry_fits s \<longleftrightarrow>
     length (io_manage_tables s) < 256 \<and>
     list_all (\<lambda>t. length (pin t) < 256) (io_manage_tables s)"

subsection \<open>The registry invariant and runs of operations\<close>












subsection \<open>A small board for concrete runs\<close>

text \<open>
  Two ports of two pins each. Function tags are the bit flags 1 (digital I/O), 2 (ADC)
  and 4 (SPI); the first pin of the first port allows digital I/O and ADC, as in
  scenario A of the spec.
\<close>

definition demo_pin :: "32 word \<Rightarrow> 32 word \<Rightarrow> IO_pin" where
  "demo_pin n avail =
     \<lparr>pad = n, default_mode = 0, default_alloc = 1, fn_available = avail,
      current_mode = 0, current_alloc = 1\<rparr>"

definition demo_state :: io_state where
  "demo_state =
     \<lparr>io_manage_tables =
        [\<lparr>port = 0x40020000, pin = [demo_pin 0 3, demo_pin 1 1]\<rparr>,
         \<lparr>port = 0x40020400, pin = [demo_pin 0 1, demo_pin 1 5]\<rparr>],
      pal_calls = []\<rparr>"

text \<open>
  The board after scenario A's first request: the first pin of the first port is owned
  by the ADC (tag 2) in mode 3, and one hardware call has been made.
\<close>

definition demo_adc :: io_state where
  "demo_adc =
     \<lparr>io_manage_tables =
        [\<lparr>port = 0x40020000,
          pin = [(demo_pin 0 3)\<lparr>current_mode := 3, current_alloc := 2\<rparr>, demo_pin 1 1]\<rparr>,
         \<lparr>port = 0x40020400, pin = [demo_pin 0 1, demo_pin 1 5]\<rparr>],
      pal_calls = [(0x40020000, 0, 3)]\<rparr>"


section \<open>Properties\<close>

subsection \<open>The lookup loop\<close>

lemma unat_succ8: "unat (i :: 8 word) < 255 \<Longrightarrow> unat (i + 1) = Suc (unat i)"
  by (simp add: unat_word_ariths)

lemma get_table_loop_none:
  "length tables < 256 \<Longrightarrow> unat i \<le> length tables \<Longrightarrow>
   \<forall>n. unat i \<le> n \<and> n < length tables \<longrightarrow> port (tables ! n) \<noteq> prt \<Longrightarrow>
   io_manage_get_table_loop tables prt i = Some None"
proof (induction "length tables - unat i" arbitrary: i)
  case 0
  then show ?case by (subst io_manage_get_table_loop.simps) simp
next
  case (Suc d)
  from Suc.hyps(2) Suc.prems(1) have lt: "unat i < length tables" and b: "unat i < 255"
    by arith+
  have u: "unat (i + 1) = Suc (unat i)" using b by (rule unat_succ8)
  have "io_manage_get_table_loop tables prt (i + 1) = Some None"
    using Suc.hyps(2) Suc.prems u lt by (intro Suc.hyps(1)) auto
  moreover have "port (tables ! unat i) \<noteq> prt" using Suc.prems(3) lt by simp
  ultimately show ?case using lt by (subst io_manage_get_table_loop.simps) simp
qed

lemma get_table_loop_some:
  "k < 256 \<Longrightarrow> k < length tables \<Longrightarrow> unat i \<le> k \<Longrightarrow> port (tables ! k) = prt \<Longrightarrow>
   \<forall>n. unat i \<le> n \<and> n < k \<longrightarrow> port (tables ! n) \<noteq> prt \<Longrightarrow>
   io_manage_get_table_loop tables prt i = Some (Some k)"
proof (induction "k - unat i" arbitrary: i)
  case 0
  then have "unat i = k" by simp
  with 0 show ?case by (subst io_manage_get_table_loop.simps) simp
next
  case (Suc d)
  from Suc.hyps(2) Suc.prems have lt: "unat i < k" and b: "unat i < 255" by arith+
  have u: "unat (i + 1) = Suc (unat i)" using b by (rule unat_succ8)
  have "io_manage_get_table_loop tables prt (i + 1) = Some (Some k)"
    using Suc.hyps(2) Suc.prems u lt by (intro Suc.hyps(1)) auto
  moreover have "port (tables ! unat i) \<noteq> prt" using Suc.prems(5) lt by simp
  ultimately show ?case using lt Suc.prems(2)
    by (subst io_manage_get_table_loop.simps) simp
qed

text \<open>A port that no table carries is reported as not found.\<close>

lemma get_table_not_found:
  "length tables < 256 \<Longrightarrow> \<forall>t \<in> set tables. port t \<noteq> prt \<Longrightarrow>
   io_manage_get_table tables prt pd = Some None"
  unfolding io_manage_get_table_def by (rule get_table_loop_none) simp_all

text \<open>The first table that carries the port is the one returned.\<close>

lemma get_table_found:
  "k < 256 \<Longrightarrow> k < length tables \<Longrightarrow> port (tables ! k) = prt \<Longrightarrow>
   \<forall>n < k. port (tables ! n) \<noteq> prt \<Longrightarrow>
   io_manage_get_table tables prt pd = Some (Some k)"
  unfolding io_manage_get_table_def by (rule get_table_loop_some) simp_all

lemma get_table_loop_sound:
  assumes "io_manage_get_table_loop tables prt i = Some (Some k)"
  shows "k < length tables \<and> port (tables ! k) = prt"
proof -
  have "\<forall>k. r = Some k \<longrightarrow> k < length tables \<and> port (tables ! k) = prt"
    if "io_manage_get_table_loop tables prt i = Some r" for r
    by (rule io_manage_get_table_loop.raw_induct
          [where P = "\<lambda>tables prt i r.
              \<forall>k. r = Some k \<longrightarrow> k < length tables \<and> port (tables ! k) = prt",
           OF _ that])
       (auto split: if_splits)
  with assms show ?thesis by blast
qed

lemma get_table_sound:
  "io_manage_get_table tables prt pd = Some (Some k) \<Longrightarrow>
   k < length tables \<and> port (tables ! k) = prt"
  unfolding io_manage_get_table_def by (rule get_table_loop_sound)

subsection \<open>The reset loops\<close>


lemma reset_pin_tables:
  "io_manage_tables (reset_pin k j s) =
     (io_manage_tables s)[k := (io_manage_tables s ! k)
        \<lparr>pin := (pin (io_manage_tables s ! k))[j := pin_to_default (pin (io_manage_tables s ! k) ! j)]\<rparr>]"
  by (simp add: reset_pin_def palSetPadMode_def Let_def)

lemma reset_pin_calls:
  "pal_calls (reset_pin k j s) =
     pal_calls s @ [(port (io_manage_tables s ! k),
                     pad (pin (io_manage_tables s ! k) ! j),
                     default_mode (pin (io_manage_tables s ! k) ! j))]"
  by (simp add: reset_pin_def palSetPadMode_def Let_def pin_to_default_def)

lemma reset_pin_length [simp]:
  "length (io_manage_tables (reset_pin k j s)) = length (io_manage_tables s)"
  by (simp add: reset_pin_tables)

lemma reset_pin_pin_length [simp]:
  "length (pin (io_manage_tables (reset_pin k j s) ! n)) = length (pin (io_manage_tables s ! n))"
  by (cases "k < length (io_manage_tables s)"; cases "n = k")
     (simp_all add: reset_pin_tables list_update_beyond)

lemma to_defaults_pins_fold:
  "length (pin (io_manage_tables s ! k)) < 256 \<Longrightarrow>
   unat j \<le> length (pin (io_manage_tables s ! k)) \<Longrightarrow>
   io_manage_to_defaults_pins k j s =
     Some (fold (reset_pin k) [unat j..<length (pin (io_manage_tables s ! k))] s)"
proof (induction "length (pin (io_manage_tables s ! k)) - unat j" arbitrary: j s)
  case 0
  then show ?case by (subst io_manage_to_defaults_pins.simps) simp
next
  case (Suc d)
  let ?L = "length (pin (io_manage_tables s ! k))"
  from Suc.hyps(2) Suc.prems have lt: "unat j < ?L" and b: "unat j < 255" by arith+
  have u: "unat (j + 1) = Suc (unat j)" using b by (rule unat_succ8)
  have "io_manage_to_defaults_pins k (j + 1) (reset_pin k (unat j) s) =
        Some (fold (reset_pin k) [unat (j + 1)..<?L] (reset_pin k (unat j) s))"
    using Suc.hyps(2) Suc.prems u lt Suc.hyps(1)[of "reset_pin k (unat j) s" "j + 1"] by simp
  then show ?case using lt u
    by (subst io_manage_to_defaults_pins.simps) (simp add: upt_conv_Cons)
qed

lemma fold_reset_pin_length [simp]:
  "length (io_manage_tables (fold (reset_pin k) js s)) = length (io_manage_tables s)"
  by (induction js arbitrary: s) simp_all

lemma fold_reset_pin_pin_length [simp]:
  "length (pin (io_manage_tables (fold (reset_pin k) js s) ! n)) = length (pin (io_manage_tables s ! n))"
  by (induction js arbitrary: s) simp_all

lemma reset_table_length [simp]:
  "length (io_manage_tables (reset_table k s)) = length (io_manage_tables s)"
  by (simp add: reset_table_def)

lemma reset_table_pin_length [simp]:
  "length (pin (io_manage_tables (reset_table k s) ! n)) = length (pin (io_manage_tables s ! n))"
  by (simp add: reset_table_def)

lemma to_defaults_loop_fold:
  "length (io_manage_tables s) < 256 \<Longrightarrow>
   \<forall>n < length (io_manage_tables s). length (pin (io_manage_tables s ! n)) < 256 \<Longrightarrow>
   unat i \<le> length (io_manage_tables s) \<Longrightarrow>
   io_manage_to_defaults_loop i s =
     Some (fold reset_table [unat i..<length (io_manage_tables s)] s)"
proof (induction "length (io_manage_tables s) - unat i" arbitrary: i s)
  case 0
  then show ?case by (subst io_manage_to_defaults_loop.simps) simp
next
  case (Suc d)
  let ?N = "length (io_manage_tables s)"
  from Suc.hyps(2) Suc.prems have lt: "unat i < ?N" and b: "unat i < 255" by arith+
  have u: "unat (i + 1) = Suc (unat i)" using b by (rule unat_succ8)
  have inner: "io_manage_to_defaults_pins (unat i) 0 s = Some (reset_table (unat i) s)"
    using Suc.prems(2) lt by (simp add: to_defaults_pins_fold reset_table_def)
  have "io_manage_to_defaults_loop (i + 1) (reset_table (unat i) s) =
        Some (fold reset_table [unat (i + 1)..<?N] (reset_table (unat i) s))"
    using Suc.hyps(2) Suc.prems u lt Suc.hyps(1)[of "reset_table (unat i) s" "i + 1"] by simp
  then show ?case using lt u inner
    by (subst io_manage_to_defaults_loop.simps) (simp add: upt_conv_Cons)
qed


lemma take_drop_step:
  "a < length xs \<Longrightarrow>
   take (Suc a) (xs[a := f (xs ! a)]) @ map f (drop (Suc a) xs) =
   take a xs @ map f (drop a xs)"
  by (simp add: take_Suc_conv_app_nth Cons_nth_drop_Suc [symmetric])

lemma map_update_inv:
  "(\<And>x. g (f x) = g x) \<Longrightarrow> map g (xs[a := f (xs ! a)]) = map g xs"
  by (cases "a < length xs") (simp_all add: map_update list_update_same_conv list_update_beyond)

lemma default_calls_update:
  "default_calls (t\<lparr>pin := (pin t)[a := pin_to_default (pin t ! a)]\<rparr>) = default_calls t"
  unfolding default_calls_def
  using map_update_inv [of "\<lambda>p. (port t, pad p, default_mode p)" pin_to_default "pin t" a]
  by (simp add: pin_to_default_def)

lemma fold_reset_pin_tables:
  "k < length (io_manage_tables s) \<Longrightarrow> a \<le> length (pin (io_manage_tables s ! k)) \<Longrightarrow>
   io_manage_tables (fold (reset_pin k) [a..<length (pin (io_manage_tables s ! k))] s) =
     (io_manage_tables s)[k := (io_manage_tables s ! k)
          \<lparr>pin := take a (pin (io_manage_tables s ! k)) @
                  map pin_to_default (drop a (pin (io_manage_tables s ! k)))\<rparr>]"
proof (induction "length (pin (io_manage_tables s ! k)) - a" arbitrary: a s)
  case 0
  then show ?case by simp
next
  case (Suc d)
  let ?t = "io_manage_tables s ! k"
  let ?s1 = "reset_pin k a s"
  from Suc.hyps(2) have lt: "a < length (pin ?t)" by arith
  have t1: "io_manage_tables ?s1 ! k = ?t\<lparr>pin := (pin ?t)[a := pin_to_default (pin ?t ! a)]\<rparr>"
    using Suc.prems(1) by (simp add: reset_pin_tables)
  have ih: "io_manage_tables (fold (reset_pin k) [Suc a..<length (pin ?t)] ?s1) =
     (io_manage_tables ?s1)[k := (io_manage_tables ?s1 ! k)
          \<lparr>pin := take (Suc a) (pin (io_manage_tables ?s1 ! k)) @
                  map pin_to_default (drop (Suc a) (pin (io_manage_tables ?s1 ! k)))\<rparr>]"
    using Suc.hyps(1)[of ?s1 "Suc a"] Suc.hyps(2) Suc.prems lt by simp
  show ?case
    using lt by (simp add: upt_conv_Cons ih t1 take_drop_step) (simp add: reset_pin_tables)
qed

lemma fold_reset_pin_calls:
  "k < length (io_manage_tables s) \<Longrightarrow> a \<le> length (pin (io_manage_tables s ! k)) \<Longrightarrow>
   pal_calls (fold (reset_pin k) [a..<length (pin (io_manage_tables s ! k))] s) =
     pal_calls s @ drop a (default_calls (io_manage_tables s ! k))"
proof (induction "length (pin (io_manage_tables s ! k)) - a" arbitrary: a s)
  case 0
  then show ?case by (simp add: default_calls_def)
next
  case (Suc d)
  let ?t = "io_manage_tables s ! k"
  let ?s1 = "reset_pin k a s"
  from Suc.hyps(2) have lt: "a < length (pin ?t)" by arith
  have t1: "io_manage_tables ?s1 ! k = ?t\<lparr>pin := (pin ?t)[a := pin_to_default (pin ?t ! a)]\<rparr>"
    using Suc.prems(1) by (simp add: reset_pin_tables)
  have ih: "pal_calls (fold (reset_pin k) [Suc a..<length (pin ?t)] ?s1) =
     pal_calls ?s1 @ drop (Suc a) (default_calls (io_manage_tables ?s1 ! k))"
    using Suc.hyps(1)[of ?s1 "Suc a"] Suc.hyps(2) Suc.prems lt by simp
  have dc: "drop a (default_calls ?t) =
      (port ?t, pad (pin ?t ! a), default_mode (pin ?t ! a)) # drop (Suc a) (default_calls ?t)"
    using lt by (simp add: default_calls_def Cons_nth_drop_Suc [symmetric] drop_map)
  show ?case
    using lt by (simp add: upt_conv_Cons ih t1 default_calls_update dc reset_pin_calls)
qed

lemma reset_table_tables:
  "k < length (io_manage_tables s) \<Longrightarrow>
   io_manage_tables (reset_table k s) =
     (io_manage_tables s)[k := table_to_default (io_manage_tables s ! k)]"
  using fold_reset_pin_tables [of k s 0] by (simp add: reset_table_def table_to_default_def)

lemma reset_table_calls:
  "k < length (io_manage_tables s) \<Longrightarrow>
   pal_calls (reset_table k s) = pal_calls s @ default_calls (io_manage_tables s ! k)"
  using fold_reset_pin_calls [of k s 0] by (simp add: reset_table_def)

lemma fold_reset_table_tables:
  "a \<le> length (io_manage_tables s) \<Longrightarrow>
   io_manage_tables (fold reset_table [a..<length (io_manage_tables s)] s) =
     take a (io_manage_tables s) @ map table_to_default (drop a (io_manage_tables s))"
proof (induction "length (io_manage_tables s) - a" arbitrary: a s)
  case 0
  then show ?case by simp
next
  case (Suc d)
  let ?s1 = "reset_table a s"
  from Suc.hyps(2) have lt: "a < length (io_manage_tables s)" by arith
  have ih: "io_manage_tables (fold reset_table [Suc a..<length (io_manage_tables s)] ?s1) =
     take (Suc a) (io_manage_tables ?s1) @ map table_to_default (drop (Suc a) (io_manage_tables ?s1))"
    using Suc.hyps(1)[of ?s1 "Suc a"] Suc.hyps(2) lt by simp
  show ?case
    using lt by (simp add: upt_conv_Cons ih reset_table_tables take_drop_step)
qed

lemma fold_reset_table_calls:
  "a \<le> length (io_manage_tables s) \<Longrightarrow>
   pal_calls (fold reset_table [a..<length (io_manage_tables s)] s) =
     pal_calls s @ concat (map default_calls (drop a (io_manage_tables s)))"
proof (induction "length (io_manage_tables s) - a" arbitrary: a s)
  case 0
  then show ?case by simp
next
  case (Suc d)
  let ?s1 = "reset_table a s"
  from Suc.hyps(2) have lt: "a < length (io_manage_tables s)" by arith
  have ih: "pal_calls (fold reset_table [Suc a..<length (io_manage_tables s)] ?s1) =
     pal_calls ?s1 @ concat (map default_calls (drop (Suc a) (io_manage_tables ?s1)))"
    using Suc.hyps(1)[of ?s1 "Suc a"] Suc.hyps(2) lt by simp
  show ?case
    using lt by (simp add: upt_conv_Cons ih reset_table_tables reset_table_calls
        Cons_nth_drop_Suc [symmetric])
qed

subsection \<open>The commit, by cases\<close>

lemma set_mode_found:
  "io_manage_get_table (io_manage_tables s) prt pd = Some (Some k) \<Longrightarrow>
   io_manage_set_mode s prt pd new_mode request_alloc =
     (case io_manage_fn_avail prt pd request_alloc (Some (io_manage_tables s ! k)) of
        Inl e \<Rightarrow> Some (Inl e)
      | Inr True \<Rightarrow> Some (Inr (True,
          palSetPadMode prt pd new_mode (commit_pin k pd new_mode request_alloc s)))
      | Inr False \<Rightarrow> Some (Inr (False, s)))"
  by (simp add: io_manage_set_mode_def split: sum.split bool.split)

lemma set_mode_not_found:
  "io_manage_get_table (io_manage_tables s) prt pd = Some None \<Longrightarrow>
   io_manage_set_mode s prt pd new_mode request_alloc = Some (Inr (False, s))"
  by (simp add: io_manage_set_mode_def io_manage_fn_avail_def)

lemma set_mode_cases:
  assumes "io_manage_set_mode s prt pd new_mode request_alloc = Some r"
  obtains
    (not_found) "io_manage_get_table (io_manage_tables s) prt pd = Some None"
      "r = Inr (False, s)"
  | (out_of_bounds) k where "io_manage_get_table (io_manage_tables s) prt pd = Some (Some k)"
      "io_manage_fn_avail prt pd request_alloc (Some (io_manage_tables s ! k)) = Inl OutOfBounds"
      "r = Inl OutOfBounds"
  | (rejected) k where "io_manage_get_table (io_manage_tables s) prt pd = Some (Some k)"
      "io_manage_fn_avail prt pd request_alloc (Some (io_manage_tables s ! k)) = Inr False"
      "r = Inr (False, s)"
  | (committed) k where "io_manage_get_table (io_manage_tables s) prt pd = Some (Some k)"
      "io_manage_fn_avail prt pd request_alloc (Some (io_manage_tables s ! k)) = Inr True"
      "r = Inr (True, palSetPadMode prt pd new_mode (commit_pin k pd new_mode request_alloc s))"
proof (cases "io_manage_get_table (io_manage_tables s) prt pd")
  case None
  with assms show ?thesis by (simp add: io_manage_set_mode_def)
next
  case (Some table)
  show ?thesis
  proof (cases table)
    case None
    with Some assms not_found show ?thesis by (simp add: set_mode_not_found)
  next
    case (Some k)
    with \<open>io_manage_get_table (io_manage_tables s) prt pd = Some table\<close>
    have g: "io_manage_get_table (io_manage_tables s) prt pd = Some (Some k)" by simp
    show ?thesis
    proof (cases "io_manage_fn_avail prt pd request_alloc (Some (io_manage_tables s ! k))")
      case (Inl e)
      then have "e = OutOfBounds"
        by (auto simp: io_manage_fn_avail_def Let_def split: if_splits)
      with Inl g assms out_of_bounds show ?thesis by (simp add: set_mode_found)
    next
      case (Inr b)
      with g assms rejected committed show ?thesis
        by (cases b) (simp_all add: set_mode_found)
    qed
  qed
qed

lemma commit_pin_same:
  "commit_pin k pd (current_mode (pin (io_manage_tables s ! k) ! unat pd))
      (current_alloc (pin (io_manage_tables s ! k) ! unat pd)) s = s"
  by (simp add: commit_pin_def Let_def)

lemma commit_pin_nth:
  "k < length (io_manage_tables s) \<Longrightarrow> unat pd < length (pin (io_manage_tables s ! k)) \<Longrightarrow>
   pin (io_manage_tables (commit_pin k pd new_mode request_alloc s) ! k) ! unat pd =
     (pin (io_manage_tables s ! k) ! unat pd)
        \<lparr>current_mode := new_mode, current_alloc := request_alloc\<rparr>"
  by (simp add: commit_pin_def Let_def)

subsection \<open>What the reset returns\<close>

lemma registry_fits_iff:
  "registry_fits s \<longleftrightarrow>
     length (io_manage_tables s) < 256 \<and>
     (\<forall>n < length (io_manage_tables s). length (pin (io_manage_tables s ! n)) < 256)"
  by (simp add: registry_fits_def list_all_length)

lemma to_defaults_total:
  assumes "registry_fits s"
  shows "io_manage_to_defaults s =
           Some (fold reset_table [0..<length (io_manage_tables s)] s)"
  using assms to_defaults_loop_fold [of s 0]
  by (simp add: registry_fits_iff io_manage_to_defaults_def)

lemma pin_to_default_at_default: "pin_at_default (pin_to_default p)"
  by (simp add: pin_at_default_def pin_to_default_def)

lemma pin_to_default_idem: "pin_to_default (pin_to_default p) = pin_to_default p"
  by (simp add: pin_to_default_def)

lemma table_to_default_idem: "table_to_default (table_to_default t) = table_to_default t"
  by (simp add: table_to_default_def pin_to_default_idem)

lemma boot_tables_idem: "boot_tables (boot_tables tables) = boot_tables tables"
  by (simp add: boot_tables_def table_to_default_idem)

lemma boot_tables_at_defaults:
  "io_manage_tables s = boot_tables tables \<Longrightarrow> at_defaults s"
  by (simp add: at_defaults_def pins_all_def boot_tables_def table_to_default_def list_all_iff
      pin_to_default_at_default)

lemma at_defaults_iff:
  "at_defaults s \<longleftrightarrow>
     (\<forall>t \<in> set (io_manage_tables s). \<forall>p \<in> set (pin t).
        current_mode p = default_mode p \<and> current_alloc p = default_alloc p)"
  by (simp add: at_defaults_def pins_all_def pin_at_default_def list_all_iff)

lemma boot_tables_fits:
  "registry_fits s \<Longrightarrow> io_manage_tables s' = boot_tables (io_manage_tables s) \<Longrightarrow>
   registry_fits s'"
  by (simp add: registry_fits_def boot_tables_def table_to_default_def list_all_iff)

subsection \<open>Preservation of the registry invariant\<close>





















subsection \<open>Operations that return\<close>









subsection \<open>Where the eight-bit counters wrap\<close>

lemma unat_lt_256: "unat (j :: 8 word) < 256"
  using unsigned_less [of j, where 'a = nat] by simp

text \<open>
  With 256 tables or more, none of the first 256 carrying the port, the counter of the
  lookup wraps to 0 before it reaches the array's length, and the lookup does not
  return. The same holds for the inner loop of the reset on a table of 256 pins or more.
\<close>

lemma get_table_loop_wraps:
  assumes n: "256 \<le> length tables" and p: "\<forall>n < 256. port (tables ! n) \<noteq> prt"
  shows "io_manage_get_table_loop tables prt i = None"
proof (cases "io_manage_get_table_loop tables prt i")
  case None
  then show ?thesis .
next
  case (Some r)
  have "\<not> (256 \<le> length tables \<and> (\<forall>n < 256. port (tables ! n) \<noteq> prt))"
  proof (rule io_manage_get_table_loop.raw_induct
          [where P = "\<lambda>tables prt i r.
              \<not> (256 \<le> length tables \<and> (\<forall>n < 256. port (tables ! n) \<noteq> prt))",
           OF _ Some])
    fix f tables prt and i :: "8 word" and r
    assume ih: "\<And>tables prt i r. f tables prt i = Some r \<Longrightarrow>
        \<not> (256 \<le> length tables \<and> (\<forall>n < 256. port (tables ! n) \<noteq> prt))"
      and body: "(if unat i < length tables
          then if port (tables ! unat i) = prt then Some (Some (unat i))
               else f tables prt (i + 1)
          else Some None) = Some r"
    show "\<not> (256 \<le> length tables \<and> (\<forall>n < 256. port (tables ! n) \<noteq> prt))"
    proof
      assume big: "256 \<le> length tables \<and> (\<forall>n < 256. port (tables ! n) \<noteq> prt)"
      with unat_lt_256 [of i] have "unat i < length tables" "port (tables ! unat i) \<noteq> prt"
        by simp_all
      with body have "f tables prt (i + 1) = Some r" by simp
      from ih [OF this] big show False by simp
    qed
  qed
  with n p show ?thesis by simp
qed

lemma to_defaults_pins_wraps:
  assumes n: "256 \<le> length (pin (io_manage_tables s ! k))"
  shows "io_manage_to_defaults_pins k j s = None"
proof (cases "io_manage_to_defaults_pins k j s")
  case None
  then show ?thesis .
next
  case (Some r)
  have "\<not> 256 \<le> length (pin (io_manage_tables s ! k))"
  proof (rule io_manage_to_defaults_pins.raw_induct
          [where P = "\<lambda>k j s r. \<not> 256 \<le> length (pin (io_manage_tables s ! k))",
           OF _ Some])
    fix f k and j :: "8 word" and s r
    assume ih: "\<And>k j s r. f k j s = Some r \<Longrightarrow>
        \<not> 256 \<le> length (pin (io_manage_tables s ! k))"
      and body: "(if unat j < length (pin (io_manage_tables s ! k))
          then f k (j + 1) (reset_pin k (unat j) s) else Some s) = Some r"
    show "\<not> 256 \<le> length (pin (io_manage_tables s ! k))"
    proof
      assume big: "256 \<le> length (pin (io_manage_tables s ! k))"
      with unat_lt_256 [of j] have "unat j < length (pin (io_manage_tables s ! k))" by simp
      with body have "f k (j + 1) (reset_pin k (unat j) s) = Some r" by simp
      from ih [OF this] big show False by simp
    qed
  qed
  with n show ?thesis by simp
qed

section \<open>The claims\<close>

subsection \<open>Scenario A on the small board\<close>

lemma demo_scenario_A:
  "io_manage_set_mode demo_state 0x40020000 0 3 2 = Some (Inr (True, demo_adc))"
  by code_simp




text \<open>
  C2 (failure atomicity of the commit). Whenever \<open>io_manage_set_mode\<close> returns false,
  the state it leaves is the state it was called in: every pin keeps its
  \<open>current_mode\<close> and \<open>current_alloc\<close>, and no call to \<open>palSetPadMode\<close> is added. It
  returns false only when the port was not found or the availability check rejected.
\<close>

theorem set_mode_failure_atomic:
  "io_manage_set_mode s prt pd new_mode request_alloc = Some (Inr (False, s')) \<Longrightarrow>
   s' = s \<and>
   (io_manage_get_table (io_manage_tables s) prt pd = Some None \<or>
    (\<exists>k. io_manage_get_table (io_manage_tables s) prt pd = Some (Some k) \<and>
         io_manage_fn_avail prt pd request_alloc (Some (io_manage_tables s ! k)) = Inr False))"
  by (erule set_mode_cases) simp_all

text \<open>Scenario A's second request: SPI (tag 4) on the pin that the ADC owns.\<close>

theorem set_mode_failure_atomic_witness:
  "io_manage_set_mode demo_adc 0x40020000 0 1 4 = Some (Inr (False, demo_adc)) \<and>
   io_manage_fn_avail 0x40020000 0 4 (Some (io_manage_tables demo_adc ! 0)) = Inr False \<and>
   pal_calls demo_adc = [(0x40020000, 0, 3)]"
proof -
  have h: "io_manage_set_mode demo_adc 0x40020000 0 1 4 = Some (Inr (False, demo_adc))"
    by code_simp
  have g: "io_manage_get_table (io_manage_tables demo_adc) 0x40020000 0 = Some (Some 0)"
    by code_simp
  have c: "pal_calls demo_adc = [(0x40020000, 0, 3)]" by code_simp
  from set_mode_failure_atomic [OF h] g
  have "io_manage_fn_avail 0x40020000 0 4 (Some (io_manage_tables demo_adc ! 0)) = Inr False"
    by simp
  with h c show ?thesis by blast
qed

text \<open>
  C3 (availability check). \<open>io_manage_fn_avail\<close> returns true exactly when the table
  reference is present, the pad lies in the pin array, and the requested tag equals the
  pin's \<open>current_alloc\<close> or has a non-zero bitwise AND with the pin's \<open>fn_available\<close>;
  the second condition does not look at the current owner. It returns false exactly
  when the table reference is absent or the pin is there and neither condition holds.
  The function only reads: its result is a value, with no state.
\<close>

theorem fn_avail_iff:
  "(io_manage_fn_avail prt pd request_alloc table = Inr True \<longleftrightarrow>
      (\<exists>t. table = Some t \<and> unat pd < length (pin t) \<and>
           (current_alloc (pin t ! unat pd) = request_alloc \<or>
            request_alloc AND fn_available (pin t ! unat pd) \<noteq> 0))) \<and>
   (io_manage_fn_avail prt pd request_alloc table = Inr False \<longleftrightarrow>
      table = None \<or>
      (\<exists>t. table = Some t \<and> unat pd < length (pin t) \<and>
           current_alloc (pin t ! unat pd) \<noteq> request_alloc \<and>
           request_alloc AND fn_available (pin t ! unat pd) = 0))"
  by (cases table) (auto simp: io_manage_fn_avail_def Let_def)

text \<open>
  On the board after scenario A the ADC owns the pin: digital I/O (tag 1) is still
  accepted, by the mask alone; SPI (tag 4) is rejected; so is any tag without a table.
\<close>

theorem fn_avail_iff_witness:
  "io_manage_fn_avail 0x40020000 0 1 (Some (io_manage_tables demo_adc ! 0)) = Inr True \<and>
   io_manage_fn_avail 0x40020000 0 4 (Some (io_manage_tables demo_adc ! 0)) = Inr False \<and>
   io_manage_fn_avail 0x40020000 0 1 None = Inr False"
proof -
  let ?t = "io_manage_tables demo_adc ! 0"
  have r: "unat (0 :: 32 word) < length (pin ?t)" by code_simp
  have a: "current_alloc (pin ?t ! unat (0 :: 32 word)) = 2" by code_simp
  have m: "fn_available (pin ?t ! unat (0 :: 32 word)) = 3" by code_simp
  have m1: "(1 :: 32 word) AND 3 \<noteq> 0" and m4: "(4 :: 32 word) AND 3 = 0" by simp_all
  from fn_avail_iff [of "0x40020000" 0 1 "Some ?t"] r a m m1
  have 1: "io_manage_fn_avail 0x40020000 0 1 (Some ?t) = Inr True" by simp
  from fn_avail_iff [of "0x40020000" 0 4 "Some ?t"] r a m m4
  have 2: "io_manage_fn_avail 0x40020000 0 4 (Some ?t) = Inr False" by simp
  from fn_avail_iff [of "0x40020000" 0 1 None]
  have 3: "io_manage_fn_avail 0x40020000 0 1 None = Inr False" by simp
  from 1 2 3 show ?thesis by blast
qed

text \<open>
  C4 (unknown pin safety), as the code has it. For every request that names a port
  which no table of the registry carries (the registry having fewer than 256 tables, so
  that the eight-bit counter of the lookup reaches its end), \<open>io_manage_set_mode\<close>
  returns false and leaves the state as it was, with no hardware call.
\<close>

theorem unknown_port_rejected:
  "length (io_manage_tables s) < 256 \<Longrightarrow>
   \<forall>t \<in> set (io_manage_tables s). port t \<noteq> prt \<Longrightarrow>
   io_manage_set_mode s prt pd new_mode request_alloc = Some (Inr (False, s))"
  by (simp add: get_table_not_found set_mode_not_found)

text \<open>Scenario C: a port that the small board does not have.\<close>

theorem unknown_port_rejected_witness:
  "length (io_manage_tables demo_state) < 256 \<and>
   list_all (\<lambda>t. port t \<noteq> 0x40020800) (io_manage_tables demo_state) \<and>
   io_manage_set_mode demo_state 0x40020800 5 3 2 = Some (Inr (False, demo_state))"
proof -
  have n: "length (io_manage_tables demo_state) < 256" by code_simp
  have p: "list_all (\<lambda>t. port t \<noteq> 0x40020800) (io_manage_tables demo_state)"
    by code_simp
  then have "\<forall>t \<in> set (io_manage_tables demo_state). port t \<noteq> 0x40020800"
    by (simp add: list_all_iff)
  from unknown_port_rejected [OF n this, of 5 3 2] n p show ?thesis by blast
qed

text \<open>
  The other half of C4 does not hold: a pad index that a registered port does not
  declare is not rejected. The first port of the small board has two pins; a request
  for its pad 2 reads \<^verbatim>\<open>table->pin[2]\<close> past the end of the array, and does not
  return false.
\<close>

theorem undeclared_pad_counterexample:
  "port (io_manage_tables demo_state ! 0) = 0x40020000 \<and>
   length (pin (io_manage_tables demo_state ! 0)) = 2 \<and>
   io_manage_set_mode demo_state 0x40020000 2 0 1 = Some (Inl OutOfBounds) \<and>
   io_manage_set_mode demo_state 0x40020000 2 0 1 \<noteq> Some (Inr (False, demo_state))"
  by code_simp

text \<open>
  C5 (capability enforcement). For the pin that a request names (the lookup finds the
  port's table, the pad lies in its pin array) and a tag whose bitwise AND with the
  pin's \<open>fn_available\<close> is zero and which is not the pin's \<open>current_alloc\<close>,
  \<open>io_manage_set_mode\<close> returns false and leaves the state, and with it the pin's
  \<open>current_mode\<close> and \<open>current_alloc\<close>, unchanged.
\<close>

theorem capability_enforcement:
  "io_manage_get_table (io_manage_tables s) prt pd = Some (Some k) \<Longrightarrow>
   unat pd < length (pin (io_manage_tables s ! k)) \<Longrightarrow>
   request_alloc AND fn_available (pin (io_manage_tables s ! k) ! unat pd) = 0 \<Longrightarrow>
   request_alloc \<noteq> current_alloc (pin (io_manage_tables s ! k) ! unat pd) \<Longrightarrow>
   io_manage_set_mode s prt pd new_mode request_alloc = Some (Inr (False, s))"
  by (simp add: set_mode_found io_manage_fn_avail_def)

text \<open>SPI (tag 4) on a pin of the booted board that allows digital I/O and ADC (mask 3).\<close>

theorem capability_enforcement_witness:
  "io_manage_get_table (io_manage_tables demo_state) 0x40020000 0 = Some (Some 0) \<and>
   unat (0 :: 32 word) < length (pin (io_manage_tables demo_state ! 0)) \<and>
   (4 :: 32 word) AND
     fn_available (pin (io_manage_tables demo_state ! 0) ! unat (0 :: 32 word)) = 0 \<and>
   (4 :: 32 word) \<noteq> current_alloc (pin (io_manage_tables demo_state ! 0) ! unat (0 :: 32 word)) \<and>
   io_manage_set_mode demo_state 0x40020000 0 3 4 = Some (Inr (False, demo_state))"
proof -
  have h1: "io_manage_get_table (io_manage_tables demo_state) 0x40020000 0 = Some (Some 0)"
    by code_simp
  have h2: "unat (0 :: 32 word) < length (pin (io_manage_tables demo_state ! 0))"
    by code_simp
  have h3: "(4 :: 32 word) AND
      fn_available (pin (io_manage_tables demo_state ! 0) ! unat (0 :: 32 word)) = 0"
    by code_simp
  have h4: "(4 :: 32 word) \<noteq>
      current_alloc (pin (io_manage_tables demo_state ! 0) ! unat (0 :: 32 word))"
    by code_simp
  from capability_enforcement [OF h1 h2 h3 h4, of 3] h1 h2 h3 h4 show ?thesis by blast
qed

text \<open>
  C6 (idempotent reassertion). For the pin that a request names, owned by function \<open>F\<close>
  in mode \<open>M\<close>, \<open>io_manage_set_mode\<close> with \<open>F\<close> and \<open>M\<close> returns true and leaves the
  registry, every field of every pin of every table, as it was. The hardware call
  \<open>palSetPadMode\<close> is made again, with the same mode.
\<close>

theorem idempotent_reassertion:
  "io_manage_get_table (io_manage_tables s) prt pd = Some (Some k) \<Longrightarrow>
   unat pd < length (pin (io_manage_tables s ! k)) \<Longrightarrow>
   current_alloc (pin (io_manage_tables s ! k) ! unat pd) = F \<Longrightarrow>
   current_mode (pin (io_manage_tables s ! k) ! unat pd) = M \<Longrightarrow>
   \<exists>s'. io_manage_set_mode s prt pd M F = Some (Inr (True, s')) \<and>
        io_manage_tables s' = io_manage_tables s \<and>
        pal_calls s' = pal_calls s @ [(prt, pd, M)]"
  using commit_pin_same [of k pd s]
  by (simp add: set_mode_found io_manage_fn_avail_def palSetPadMode_def)

text \<open>The ADC, which owns the pin in mode 3 after scenario A, asks for it again.\<close>

theorem idempotent_reassertion_witness:
  "io_manage_get_table (io_manage_tables demo_adc) 0x40020000 0 = Some (Some 0) \<and>
   unat (0 :: 32 word) < length (pin (io_manage_tables demo_adc ! 0)) \<and>
   current_alloc (pin (io_manage_tables demo_adc ! 0) ! unat (0 :: 32 word)) = 2 \<and>
   current_mode (pin (io_manage_tables demo_adc ! 0) ! unat (0 :: 32 word)) = 3 \<and>
   (\<exists>s'. io_manage_set_mode demo_adc 0x40020000 0 3 2 = Some (Inr (True, s')) \<and>
         io_manage_tables s' = io_manage_tables demo_adc \<and>
         pal_calls s' = pal_calls demo_adc @ [(0x40020000, 0, 3)])"
proof -
  have h1: "io_manage_get_table (io_manage_tables demo_adc) 0x40020000 0 = Some (Some 0)"
    by code_simp
  have h2: "unat (0 :: 32 word) < length (pin (io_manage_tables demo_adc ! 0))"
    by code_simp
  have h3: "current_alloc (pin (io_manage_tables demo_adc ! 0) ! unat (0 :: 32 word)) = 2"
    by code_simp
  have h4: "current_mode (pin (io_manage_tables demo_adc ! 0) ! unat (0 :: 32 word)) = 3"
    by code_simp
  from idempotent_reassertion [OF h1 h2 h3 h4] h1 h2 h3 h4 show ?thesis by blast
qed

text \<open>
  C7 (reset restores defaults). From any state whose arrays fit the eight-bit loop
  counters, \<open>io_manage_to_defaults\<close> returns; afterwards the registry is the boot
  registry of its capability table (every pin's \<open>current_mode\<close> is its \<open>default_mode\<close>
  and its \<open>current_alloc\<close> its \<open>default_alloc\<close>, all other fields as before), and
  exactly one \<open>palSetPadMode\<close> call per pin has been added, in table and pin order,
  with the table's port, the pin's pad and the restored mode.
\<close>

theorem to_defaults_restores:
  "registry_fits s \<Longrightarrow>
   \<exists>s'. io_manage_to_defaults s = Some s' \<and>
        io_manage_tables s' = boot_tables (io_manage_tables s) \<and>
        at_defaults s' \<and>
        pal_calls s' = pal_calls s @ concat (map default_calls (io_manage_tables s))"
proof -
  assume fits: "registry_fits s"
  let ?s' = "fold reset_table [0..<length (io_manage_tables s)] s"
  have t: "io_manage_tables ?s' = boot_tables (io_manage_tables s)"
    using fold_reset_table_tables [of 0 s] by (simp add: boot_tables_def)
  have c: "pal_calls ?s' = pal_calls s @ concat (map default_calls (io_manage_tables s))"
    using fold_reset_table_calls [of 0 s] by simp
  from t have "at_defaults ?s'" by (rule boot_tables_at_defaults)
  with t c to_defaults_total [OF fits] show ?thesis by blast
qed

text \<open>
  Scenario B: the reset after scenario A gives the booted board back, after one
  hardware call for each of the four pins.
\<close>

theorem to_defaults_restores_witness:
  "registry_fits demo_adc \<and>
   (\<exists>s'. io_manage_to_defaults demo_adc = Some s' \<and>
         io_manage_tables s' = io_manage_tables demo_state \<and>
         at_defaults s' \<and>
         pal_calls s' =
           [(0x40020000, 0, 3),
            (0x40020000, 0, 0), (0x40020000, 1, 0), (0x40020400, 0, 0), (0x40020400, 1, 0)])"
proof -
  have fits: "registry_fits demo_adc" by code_simp
  have b: "boot_tables (io_manage_tables demo_adc) = io_manage_tables demo_state"
    by code_simp
  have c: "pal_calls demo_adc @ concat (map default_calls (io_manage_tables demo_adc)) =
      [(0x40020000, 0, 3),
       (0x40020000, 0, 0), (0x40020000, 1, 0), (0x40020400, 0, 0), (0x40020400, 1, 0)]"
    by code_simp
  from to_defaults_restores [OF fits] obtain s' where
    "io_manage_to_defaults demo_adc = Some s'"
    "io_manage_tables s' = boot_tables (io_manage_tables demo_adc)"
    "at_defaults s'"
    "pal_calls s' = pal_calls demo_adc @ concat (map default_calls (io_manage_tables demo_adc))"
    by blast
  with fits b c show ?thesis by simp
qed

text \<open>
  C8 (reset idempotence). From any state whose arrays fit the loop counters, two
  resets in a row both return, and the registry after the second is the registry after
  the first.
\<close>

theorem to_defaults_idempotent:
  "registry_fits s \<Longrightarrow>
   \<exists>s1 s2. io_manage_to_defaults s = Some s1 \<and> io_manage_to_defaults s1 = Some s2 \<and>
          io_manage_tables s2 = io_manage_tables s1"
proof -
  assume fits: "registry_fits s"
  let ?s1 = "fold reset_table [0..<length (io_manage_tables s)] s"
  let ?s2 = "fold reset_table [0..<length (io_manage_tables ?s1)] ?s1"
  have t1: "io_manage_tables ?s1 = boot_tables (io_manage_tables s)"
    using fold_reset_table_tables [of 0 s] by (simp add: boot_tables_def)
  have fits1: "registry_fits ?s1" using fits t1 by (rule boot_tables_fits)
  have t2: "io_manage_tables ?s2 = boot_tables (io_manage_tables ?s1)"
    using fold_reset_table_tables [of 0 ?s1] by (simp add: boot_tables_def)
  have "io_manage_tables ?s2 = io_manage_tables ?s1"
    unfolding t2 unfolding t1 by (rule boot_tables_idem)
  with to_defaults_total [OF fits] to_defaults_total [OF fits1] show ?thesis by blast
qed

theorem to_defaults_idempotent_witness:
  "registry_fits demo_adc \<and>
   (\<exists>s1 s2. io_manage_to_defaults demo_adc = Some s1 \<and>
           io_manage_to_defaults s1 = Some s2 \<and>
           io_manage_tables s2 = io_manage_tables s1)"
proof -
  have fits: "registry_fits demo_adc" by code_simp
  from to_defaults_idempotent [OF fits] fits show ?thesis by blast
qed

text \<open>
  C9 (the pad index is not validated). The result of \<open>io_manage_get_table\<close> does not
  depend on its pad argument. For a registered port and a pad at or past the length of
  the port's pin array, \<open>io_manage_fn_avail\<close> and \<open>io_manage_set_mode\<close> index the array
  out of bounds: the request reaches the out-of-range branch and is not answered with
  false.
\<close>

theorem pad_not_validated:
  "io_manage_get_table tables prt pd = io_manage_get_table tables prt pd' \<and>
   (io_manage_get_table (io_manage_tables s) prt pd = Some (Some k) \<and>
    length (pin (io_manage_tables s ! k)) \<le> unat pd \<longrightarrow>
      io_manage_fn_avail prt pd request_alloc (Some (io_manage_tables s ! k)) =
        Inl OutOfBounds \<and>
      io_manage_set_mode s prt pd new_mode request_alloc = Some (Inl OutOfBounds))"
  by (simp add: io_manage_get_table_def set_mode_found io_manage_fn_avail_def)

text \<open>Pad 7 of the second port of the small board, which has pads 0 and 1.\<close>

theorem pad_not_validated_witness:
  "io_manage_get_table (io_manage_tables demo_state) 0x40020400 7 =
     io_manage_get_table (io_manage_tables demo_state) 0x40020400 0 \<and>
   io_manage_get_table (io_manage_tables demo_state) 0x40020400 7 = Some (Some 1) \<and>
   length (pin (io_manage_tables demo_state ! 1)) \<le> unat (7 :: 32 word) \<and>
   io_manage_fn_avail 0x40020400 7 1 (Some (io_manage_tables demo_state ! 1)) =
     Inl OutOfBounds \<and>
   io_manage_set_mode demo_state 0x40020400 7 0 1 = Some (Inl OutOfBounds)"
proof -
  have g: "io_manage_get_table (io_manage_tables demo_state) 0x40020400 7 = Some (Some 1)"
    by code_simp
  have l: "length (pin (io_manage_tables demo_state ! 1)) \<le> unat (7 :: 32 word)"
    by code_simp
  from pad_not_validated
    [of "io_manage_tables demo_state" "0x40020400" 7 0 demo_state 1 1 0] g l
  show ?thesis by blast
qed

text \<open>
  C10 (multi-bit requests commit verbatim). For the pin that a request names, a
  requested value with a bit inside the pin's \<open>fn_available\<close> mask and a bit outside it,
  different from the pin's \<open>current_alloc\<close>, is accepted: \<open>io_manage_set_mode\<close> returns
  true and the pin's \<open>current_alloc\<close> is the whole requested value, its \<open>current_mode\<close>
  the requested mode. The check asks for a non-zero intersection with the mask, not
  for containment in it.
\<close>

theorem multi_bit_commit:
  "io_manage_get_table (io_manage_tables s) prt pd = Some (Some k) \<Longrightarrow>
   unat pd < length (pin (io_manage_tables s ! k)) \<Longrightarrow>
   request_alloc AND fn_available (pin (io_manage_tables s ! k) ! unat pd) \<noteq> 0 \<Longrightarrow>
   request_alloc AND NOT (fn_available (pin (io_manage_tables s ! k) ! unat pd)) \<noteq> 0 \<Longrightarrow>
   request_alloc \<noteq> current_alloc (pin (io_manage_tables s ! k) ! unat pd) \<Longrightarrow>
   \<exists>s'. io_manage_set_mode s prt pd new_mode request_alloc = Some (Inr (True, s')) \<and>
        current_alloc (pin (io_manage_tables s' ! k) ! unat pd) = request_alloc \<and>
        current_mode (pin (io_manage_tables s' ! k) ! unat pd) = new_mode"
  using get_table_sound [of "io_manage_tables s" prt pd k]
  by (simp add: set_mode_found io_manage_fn_avail_def palSetPadMode_def commit_pin_nth)

text \<open>
  The value 6 (ADC and SPI together) on a pin of the booted board whose mask is 3
  (digital I/O and ADC): bit 2 is inside the mask, bit 4 outside.
\<close>

theorem multi_bit_commit_witness:
  "io_manage_get_table (io_manage_tables demo_state) 0x40020000 0 = Some (Some 0) \<and>
   fn_available (pin (io_manage_tables demo_state ! 0) ! unat (0 :: 32 word)) = 3 \<and>
   current_alloc (pin (io_manage_tables demo_state ! 0) ! unat (0 :: 32 word)) = 1 \<and>
   (6 :: 32 word) AND 3 = 2 \<and> (6 :: 32 word) AND NOT 3 = 4 \<and>
   (\<exists>s'. io_manage_set_mode demo_state 0x40020000 0 3 6 = Some (Inr (True, s')) \<and>
         current_alloc (pin (io_manage_tables s' ! 0) ! unat (0 :: 32 word)) = 6 \<and>
         current_mode (pin (io_manage_tables s' ! 0) ! unat (0 :: 32 word)) = 3)"
proof -
  let ?p = "pin (io_manage_tables demo_state ! 0) ! unat (0 :: 32 word)"
  have h1: "io_manage_get_table (io_manage_tables demo_state) 0x40020000 0 = Some (Some 0)"
    by code_simp
  have h2: "unat (0 :: 32 word) < length (pin (io_manage_tables demo_state ! 0))"
    by code_simp
  have m: "fn_available ?p = 3" by code_simp
  have a: "current_alloc ?p = 1" by code_simp
  have i: "(6 :: 32 word) AND 3 = 2" and o: "(6 :: 32 word) AND NOT 3 = 4" by simp_all
  have h3: "(6 :: 32 word) AND fn_available ?p \<noteq> 0" unfolding m i by simp
  have h4: "(6 :: 32 word) AND NOT (fn_available ?p) \<noteq> 0" unfolding m o by simp
  have h5: "(6 :: 32 word) \<noteq> current_alloc ?p" unfolding a by simp
  from multi_bit_commit [OF h1 h2 h3 h4 h5, of 3] h1 m a i o show ?thesis by blast
qed

end
